theory Spec2Isabelle
  imports Main "HOL-Library.Word"
begin

section \<open>Data model\<close>

text \<open>
  A \<open>time.Time\<close> is an instant, counted in nanoseconds from Go's zero time
  (January 1, year 1, 00:00:00 UTC); a \<open>time.Duration\<close> is a signed count of
  nanoseconds. The descriptor's \<open>NotAfter\<close> carries no monotonic reading, so
  \<open>After\<close> compares wall-clock instants.
\<close>

type_synonym Time = int
type_synonym Duration = int

definition IsZero :: "Time \<Rightarrow> bool" where
  "IsZero t = (t = 0)"

definition After :: "Time \<Rightarrow> Time \<Rightarrow> bool" where
  "After t u = (u < t)"

definition Second :: Duration where
  "Second = 1000000000"

definition WriteTimeout :: Duration where
  "WriteTimeout = 10 * Second"

definition gracePeriod :: Duration where
  "gracePeriod = 30 * Second"

text \<open>
  The errors of the program: the two sentinels of the source with what they wrap, the
  short write of package \<open>io\<close>, the number errors of \<open>strconv.Atoi\<close> (with the
  string that was parsed), and \<open>ErrExternal\<close> for an error handed over by the
  operating system or by a library (reading the directory, loading a file, dialling,
  writing, listening, parsing a form), with its text. No such error is one of the
  program's own sentinels.
\<close>

datatype error =
    ErrMissingKey string
  | ErrExpired Time Time
  | ErrShortWrite
  | ErrSyntax string
  | ErrRange string
  | ErrExternal string

record Askpass =
  Path :: string
  Message :: string
  Icon :: string
  Socket :: string
  NotAfter :: Time

text \<open>The zero value of the struct, as \<open>var ap Askpass\<close> declares it.\<close>

definition zero_Askpass :: Askpass where
  "zero_Askpass = \<lparr>Path = [], Message = [], Icon = [], Socket = [], NotAfter = 0\<rparr>"

text \<open>
  \<open>Askers\<close> is \<open>map[string]*Askpass\<close>. A nil map reads like the empty map (a lookup
  finds nothing), so both are \<open>Map.empty\<close>.
\<close>

type_synonym Askers = "string \<rightharpoonup> Askpass"

record DirEntry =
  Name :: string
  IsDir :: bool

text \<open>
  A loaded ini file: section name, then key name, to the key's value. A key that is not
  in the file reads as the empty string (\<open>Section(..).Key(..).String()\<close>).
\<close>

type_synonym ini_File = "string \<Rightarrow> string \<rightharpoonup> string"

definition Key_String :: "ini_File \<Rightarrow> string \<Rightarrow> string \<Rightarrow> string" where
  "Key_String f sec k = (case f sec k of None \<Rightarrow> [] | Some v \<Rightarrow> v)"

type_synonym conn = nat
type_synonym listener = nat

text \<open>An \<open>*os.File\<close> made by \<open>os.NewFile\<close>: the descriptor (a \<open>uintptr\<close>) and its name.\<close>

record os_File =
  Fd :: "64 word"
  FileName :: string

text \<open>A parsed request: what \<open>ParseForm\<close> returns, and the form values it left in \<open>r.Form\<close>.\<close>

record Request =
  ParseForm :: "string option"
  Form :: "string \<Rightarrow> string list"

definition FormValue :: "Request \<Rightarrow> string \<Rightarrow> string" where
  "FormValue r key = (case Form r key of [] \<Rightarrow> [] | v # vs \<Rightarrow> v)"

section \<open>The environment and the effects\<close>

text \<open>
  What the program reads from outside itself: the two flags it consults, the directory
  and the files as they stand, the clock (its n-th reading), sockets, and the library
  functions \<open>filepath.Join\<close> and \<open>time.Parse\<close> (with the layout of \<open>MustTime\<close>).
  Where the source gets an \<open>error\<close> from outside, the environment gives its text.
\<close>

record env =
  askDir :: string
  listen :: string
  os_ReadDir :: "string \<Rightarrow> string + DirEntry list"
  ini_Load :: "string \<Rightarrow> string + ini_File"
  time_Parse :: "string \<Rightarrow> Time option"
  filepath_Join :: "string \<Rightarrow> string \<Rightarrow> string"
  clock :: "nat \<Rightarrow> Time"
  net_Dial :: "string \<Rightarrow> string \<Rightarrow> string + conn"
  conn_Write :: "conn \<Rightarrow> string \<Rightarrow> int \<times> string option"
  net_Listen :: "string \<Rightarrow> string \<Rightarrow> string + listener"
  net_FileListener :: "os_File \<Rightarrow> string + listener"

text \<open>What \<open>Error(w, error, code)\<close> is given as text: a literal, or \<open>err.Error()\<close>.\<close>

datatype message = Msg string | ErrMsg error

datatype log_entry = LogErr error | LogHttp nat message

datatype event =
    EvReadDir string
  | EvLoad string
  | EvDial string string
  | EvSetDeadline conn Time
  | EvWrite conn string
  | EvClose conn
  | EvListen string string
  | EvFileListener "os_File option"
  | EvFileClose "os_File option"

text \<open>
  The state the program threads: how often the clock was read, the lines logged, and
  the calls made to the operating system, both in order.
\<close>

record state =
  ticks :: nat
  logged :: "log_entry list"
  calls :: "event list"

definition Now :: "env \<Rightarrow> state \<Rightarrow> Time \<times> state" where
  "Now e s = (clock e (ticks s), s\<lparr>ticks := Suc (ticks s)\<rparr>)"

definition Println :: "log_entry \<Rightarrow> state \<Rightarrow> state" where
  "Println l s = s\<lparr>logged := logged s @ [l]\<rparr>"

definition call :: "event \<Rightarrow> state \<Rightarrow> state" where
  "call ev s = s\<lparr>calls := calls s @ [ev]\<rparr>"

section \<open>Prompt descriptor\<close>

definition IsExpired :: "env \<Rightarrow> Askpass \<Rightarrow> state \<Rightarrow> error option \<times> state" where
  "IsExpired e a s =
     (if IsZero (NotAfter a) then (None, s)
      else (case Now e s of (now, s') \<Rightarrow>
              if After now (NotAfter a) then (Some (ErrExpired now (NotAfter a)), s')
              else (None, s')))"

definition MustTime :: "env \<Rightarrow> string \<Rightarrow> Time \<Rightarrow> Time" where
  "MustTime e v dflt = (case time_Parse e v of None \<Rightarrow> dflt | Some t \<Rightarrow> t)"

text \<open>The loop over the required keys: the first one whose value is empty is the error.\<close>

fun check_keys :: "(string \<times> string) list \<Rightarrow> error option" where
  "check_keys [] = None"
| "check_keys ((key, val) # kvs) =
     (if val = [] then Some (ErrMissingKey key) else check_keys kvs)"

text \<open>
  \<open>UnmarshalINI\<close> returns its error and the receiver as it leaves it: untouched when
  the file does not load, assigned otherwise (also when a key is missing).
\<close>

definition UnmarshalINI :: "env \<Rightarrow> Askpass \<Rightarrow> string \<Rightarrow> state \<Rightarrow> (error option \<times> Askpass) \<times> state" where
  "UnmarshalINI e a path s =
     (case ini_Load e path of
        Inl err \<Rightarrow> ((Some (ErrExternal err), a), call (EvLoad path) s)
      | Inr f \<Rightarrow>
          (let a' = \<lparr>Path = path,
                     Message = Key_String f ''Ask'' ''Message'',
                     Icon = Key_String f ''Ask'' ''Icon'',
                     Socket = Key_String f ''Ask'' ''Socket'',
                     NotAfter = MustTime e (Key_String f ''Ask'' ''NotAfter'') 0\<rparr>
           in ((check_keys [(''Message'', Message a'), (''Socket'', Socket a')], a'),
               call (EvLoad path) s)))"

definition NewAskpass :: "env \<Rightarrow> string \<Rightarrow> state \<Rightarrow> (error + Askpass) \<times> state" where
  "NewAskpass e name s =
     (let path = filepath_Join e (askDir e) name in
      case UnmarshalINI e zero_Askpass path s of
        ((Some err, ap), s1) \<Rightarrow> (Inl err, s1)
      | ((None, ap), s1) \<Rightarrow>
          (case IsExpired e ap s1 of
             (Some err, s2) \<Rightarrow> (Inl err, s2)
           | (None, s2) \<Rightarrow> (Inr ap, s2)))"

section \<open>Prompt registry\<close>

definition Find :: "Askers \<Rightarrow> string \<Rightarrow> Askpass option" where
  "Find a name = (case a name of None \<Rightarrow> None | Some ap \<Rightarrow> Some ap)"

definition HasPrefix :: "string \<Rightarrow> string \<Rightarrow> bool" where
  "HasPrefix s p = (length p \<le> length s \<and> take (length p) s = p)"

definition CutPrefix :: "string \<Rightarrow> string \<Rightarrow> string option" where
  "CutPrefix s p = (if HasPrefix s p then Some (drop (length p) s) else None)"

fun NewAskers_loop :: "env \<Rightarrow> DirEntry list \<Rightarrow> Askers \<Rightarrow> state \<Rightarrow> Askers \<times> state" where
  "NewAskers_loop e [] out s = (out, s)"
| "NewAskers_loop e (entry # d) out s =
     (if HasPrefix (Name entry) ''ask.'' \<and> \<not> IsDir entry then
        (case NewAskpass e (Name entry) s of
           (Inl err, s') \<Rightarrow> NewAskers_loop e d out (Println (LogErr err) s')
         | (Inr ap, s') \<Rightarrow> NewAskers_loop e d (out(Name entry \<mapsto> ap)) s')
      else NewAskers_loop e d out s)"

text \<open>
  The state in which the loop of \<open>NewAskers\<close> reaches entry \<open>i\<close> of the listing
  \<open>d\<close>: the clock readings taken and the lines logged for the entries before it.
\<close>

definition entry_state :: "env \<Rightarrow> DirEntry list \<Rightarrow> state \<Rightarrow> nat \<Rightarrow> state" where
  "entry_state e d s i =
     snd (NewAskers_loop e (take i d) Map.empty (call (EvReadDir (askDir e)) s))"

definition NewAskers :: "env \<Rightarrow> state \<Rightarrow> Askers \<times> state" where
  "NewAskers e s =
     (case os_ReadDir e (askDir e) of
        Inl err \<Rightarrow>
          (Map.empty, Println (LogErr (ErrExternal err)) (call (EvReadDir (askDir e)) s))
      | Inr d \<Rightarrow> NewAskers_loop e d Map.empty (call (EvReadDir (askDir e)) s))"

section \<open>Answer relay\<close>

text \<open>
  \<open>Answer\<close>: the deferred \<open>Close\<close> runs after the result is decided, on every path
  that dialled. The error of \<open>SetDeadline\<close> is dropped, as in the source.
\<close>

definition Answer :: "env \<Rightarrow> Askpass \<Rightarrow> string \<Rightarrow> state \<Rightarrow> error option \<times> state" where
  "Answer e a s st =
     (case net_Dial e ''unixgram'' (Socket a) of
        Inl err \<Rightarrow> (Some (ErrExternal err), call (EvDial ''unixgram'' (Socket a)) st)
      | Inr sock \<Rightarrow>
          (case Now e (call (EvDial ''unixgram'' (Socket a)) st) of (now, st1) \<Rightarrow>
             (let st2 = call (EvSetDeadline sock (now + WriteTimeout)) st1;
                  buf = CHR ''+'' # s;
                  st3 = call (EvWrite sock buf) st2
              in (case conn_Write e sock buf of
                    (n, Some err) \<Rightarrow> (Some (ErrExternal err), call (EvClose sock) st3)
                  | (n, None) \<Rightarrow>
                      if n < int (length s) then (Some ErrShortWrite, call (EvClose sock) st3)
                      else (None, call (EvClose sock) st3)))))"

section \<open>Request handler\<close>

datatype response = HttpError message nat | Redirect string nat

definition StatusSeeOther :: nat where "StatusSeeOther = 303"
definition StatusBadRequest :: nat where "StatusBadRequest = 400"
definition StatusNotFound :: nat where "StatusNotFound = 404"
definition StatusInternalServerError :: nat where "StatusInternalServerError = 500"

definition Error :: "message \<Rightarrow> nat \<Rightarrow> state \<Rightarrow> response \<times> state" where
  "Error msg code s = (HttpError msg code, Println (LogHttp code msg) s)"

definition ServePass :: "env \<Rightarrow> Request \<Rightarrow> state \<Rightarrow> response \<times> state" where
  "ServePass e r s =
     (case ParseForm r of
        Some err \<Rightarrow> Error (ErrMsg (ErrExternal err)) StatusBadRequest s
      | None \<Rightarrow>
          (case NewAskers e s of (askers, s1) \<Rightarrow>
             (case Find askers (FormValue r ''ask'') of
                None \<Rightarrow> Error (Msg ''Not found'') StatusNotFound s1
              | Some ap \<Rightarrow>
                  (case Answer e ap (FormValue r ''answer'') s1 of
                     (Some err, s2) \<Rightarrow> Error (ErrMsg err) StatusInternalServerError s2
                   | (None, s2) \<Rightarrow> (Redirect ''/'' StatusSeeOther, s2)))))"

text \<open>The paths a run handed to the filesystem (\<open>os.ReadDir\<close>, \<open>ini.Load\<close>), in order.\<close>

fun fs_accesses :: "event list \<Rightarrow> string list" where
  "fs_accesses [] = []"
| "fs_accesses (EvReadDir p # evs) = p # fs_accesses evs"
| "fs_accesses (EvLoad p # evs) = p # fs_accesses evs"
| "fs_accesses (ev # evs) = fs_accesses evs"

section \<open>Listener resolver\<close>

text \<open>
  \<open>strconv.Atoi\<close> on a 64-bit platform: an optional sign, then decimal digits only.
  The digits are accumulated as in \<open>ParseUint\<close>: a character that is no digit is a
  syntax error where it stands, a value past \<open>2^64 - 1\<close> a range error where it is
  reached; the signed value must then fit \<open>int64\<close>.
\<close>

definition digit_val :: "char \<Rightarrow> int option" where
  "digit_val c =
     (let n = (of_char c :: nat) in if 48 \<le> n \<and> n \<le> 57 then Some (int n - 48) else None)"

datatype scan_result = ScanOk int | ScanSyntax | ScanRange

fun scan_digits :: "int \<Rightarrow> string \<Rightarrow> scan_result" where
  "scan_digits acc [] = ScanOk acc"
| "scan_digits acc (c # cs) =
     (case digit_val c of
        None \<Rightarrow> ScanSyntax
      | Some v \<Rightarrow>
          if acc * 10 + v > 2 ^ 64 - 1 then ScanRange else scan_digits (acc * 10 + v) cs)"

definition Atoi :: "string \<Rightarrow> error + int" where
  "Atoi s =
     (case s of
        [] \<Rightarrow> Inl (ErrSyntax s)
      | c # cs \<Rightarrow>
          (let neg = (c = CHR ''-'');
               ds = (if c = CHR ''-'' \<or> c = CHR ''+'' then cs else s)
           in if ds = [] then Inl (ErrSyntax s)
              else (case scan_digits 0 ds of
                      ScanSyntax \<Rightarrow> Inl (ErrSyntax s)
                    | ScanRange \<Rightarrow> Inl (ErrRange s)
                    | ScanOk un \<Rightarrow>
                        if \<not> neg \<and> un \<ge> 2 ^ 63 then Inl (ErrRange s)
                        else if neg \<and> un > 2 ^ 63 then Inl (ErrRange s)
                        else Inr (if neg then - un else un))))"

text \<open>\<open>os.NewFile\<close> returns nil for a descriptor that is negative as an \<open>int\<close>.\<close>

definition NewFile :: "64 word \<Rightarrow> string \<Rightarrow> os_File option" where
  "NewFile fd name = (if sint fd < 0 then None else Some \<lparr>Fd = fd, FileName = name\<rparr>)"

definition wrap_error :: "string + 'a \<Rightarrow> error + 'a" where
  "wrap_error r = (case r of Inl err \<Rightarrow> Inl (ErrExternal err) | Inr v \<Rightarrow> Inr v)"

text \<open>
  A call returns a value or panics. \<open>net.FileListener\<close> of a nil file panics: the
  nil file has no descriptor to duplicate, and the error it then builds reads
  \<open>f.Name()\<close>, a nil dereference. Of a file it returns the listener or the error of
  the operating system.
\<close>

datatype 'a outcome = Return 'a | Panic

definition FileListener :: "env \<Rightarrow> os_File option \<Rightarrow> (error + listener) outcome" where
  "FileListener e f =
     (case f of
        None \<Rightarrow> Panic
      | Some file \<Rightarrow> Return (wrap_error (net_FileListener e file)))"

text \<open>
  \<open>Listener\<close> tests the flag \<open>*listen\<close> for the prefix and binds its parameter
  \<open>addr\<close>, as the source has it. The deferred \<open>f.Close()\<close> runs after
  \<open>net.FileListener\<close>, also when that panics (on a nil file it returns an error and
  does nothing).
\<close>

definition Listener ::
  "env \<Rightarrow> string \<Rightarrow> state \<Rightarrow> (error + listener) outcome \<times> state" where
  "Listener e addr s =
     (case CutPrefix (listen e) ''fd:'' of
        Some fdstr \<Rightarrow>
          (case Atoi fdstr of
             Inl err \<Rightarrow> (Return (Inl err), s)
           | Inr fd \<Rightarrow>
               (let f = NewFile (word_of_int fd) (listen e)
                in (FileListener e f,
                    call (EvFileClose f) (call (EvFileListener f) s))))
      | None \<Rightarrow>
          (Return (wrap_error (net_Listen e ''tcp'' addr)), call (EvListen ''tcp'' addr) s))"

section \<open>Idle supervisor\<close>

text \<open>
  A handler is the handler given (\<open>Plain\<close>) or the closure \<open>NewIdleHandler\<close> builds
  around one: it holds its timer, the idle duration and the wrapped handler.
  A timer made by \<open>time.AfterFunc\<close> holds the function it runs: here always the
  closure that calls \<open>shutdownFunc\<close> with a context of \<open>gracePeriod\<close> and then
  cancels the context whose \<open>Done\<close> channel was returned (its log line is left
  out). Timers and contexts are numbered in the order of their creation; a \<open>done\<close>
  channel is the number of its context, nil is \<open>None\<close>.
\<close>

datatype 'h Handler = Plain 'h | IdleHandlerFunc nat Duration "'h Handler"

record 'f timer =
  armed :: bool
  period :: Duration
  shutdownFunc :: 'f
  cancels :: nat

record ('f, 'h) idle_state =
  timers :: "'f timer list"
  done_closed :: "bool list"
  shutdown_calls :: "('f \<times> Duration) list"
  served :: "'h list"

definition NewIdleHandler ::
  "Duration \<Rightarrow> 'f \<Rightarrow> 'h Handler \<Rightarrow> ('f, 'h) idle_state \<Rightarrow>
     ('h Handler \<times> nat option) \<times> ('f, 'h) idle_state" where
  "NewIdleHandler shutdownIdle sf handler st =
     (if shutdownIdle > 0 then
        (let ctx = length (done_closed st);
             t = length (timers st);
             st1 = st\<lparr>done_closed := done_closed st @ [False]\<rparr>;
             st2 = st1\<lparr>timers := timers st1 @
                     [\<lparr>armed = True, period = shutdownIdle, shutdownFunc = sf, cancels = ctx\<rparr>]\<rparr>
         in ((IdleHandlerFunc t shutdownIdle handler, Some ctx), st2))
      else ((handler, None), st))"

text \<open>The timer's function, run when timer \<open>t\<close> expires: a fired timer is no longer armed.\<close>

definition expire :: "nat \<Rightarrow> ('f, 'h) idle_state \<Rightarrow> ('f, 'h) idle_state" where
  "expire t st =
     (if t < length (timers st) \<and> armed (timers st ! t) then
        (let tm = timers st ! t;
             st1 = st\<lparr>timers := (timers st)[t := tm\<lparr>armed := False\<rparr>]\<rparr>;
             st2 = st1\<lparr>shutdown_calls := shutdown_calls st1 @ [(shutdownFunc tm, gracePeriod)]\<rparr>
         in st2\<lparr>done_closed := (done_closed st2)[cancels tm := True]\<rparr>)
      else st)"

definition Reset :: "nat \<Rightarrow> Duration \<Rightarrow> ('f, 'h) idle_state \<Rightarrow> ('f, 'h) idle_state" where
  "Reset t d st =
     (if t < length (timers st)
      then st\<lparr>timers := (timers st)[t := (timers st ! t)\<lparr>armed := True, period := d\<rparr>]\<rparr>
      else st)"

fun ServeHTTP :: "'h Handler \<Rightarrow> ('f, 'h) idle_state \<Rightarrow> ('f, 'h) idle_state" where
  "ServeHTTP (Plain h) st = st\<lparr>served := served st @ [h]\<rparr>"
| "ServeHTTP (IdleHandlerFunc t d handler) st = ServeHTTP handler (Reset t d st)"

text \<open>What can happen to a server: a request arrives, or a timer expires.\<close>

datatype idle_event = Request_arrives | Timer_expires nat

fun idle_run :: "'h Handler \<Rightarrow> idle_event list \<Rightarrow> ('f, 'h) idle_state \<Rightarrow> ('f, 'h) idle_state" where
  "idle_run h [] st = st"
| "idle_run h (Request_arrives # evs) st = idle_run h evs (ServeHTTP h st)"
| "idle_run h (Timer_expires t # evs) st = idle_run h evs (expire t st)"

text \<open>The state of \<open>main\<close> before it calls \<open>NewIdleHandler\<close>: no timer, no context.\<close>

definition idle_init :: "('f, 'h) idle_state" where
  "idle_init = \<lparr>timers = [], done_closed = [], shutdown_calls = [], served = []\<rparr>"

section \<open>Example inputs\<close>

text \<open>
  A directory with one valid prompt, a file that does not load, a subdirectory, a prompt
  without \<open>Message\<close>, an expired prompt and a file of another name; the clock starts at
  1000 and the only time the parser accepts reads as 500.
\<close>

definition ask_file :: ini_File where
  "ask_file = (\<lambda>sec. if sec = ''Ask''
     then [''Message'' \<mapsto> ''Enter passphrase'', ''Socket'' \<mapsto> ''/tmp/test.sock'']
     else Map.empty)"

definition old_file :: ini_File where
  "old_file = (\<lambda>sec. if sec = ''Ask''
     then [''Message'' \<mapsto> ''Old prompt'', ''Socket'' \<mapsto> ''/tmp/old.sock'',
           ''NotAfter'' \<mapsto> ''2001-01-01T00:00:00Z'']
     else Map.empty)"

definition nomsg_file :: ini_File where
  "nomsg_file = (\<lambda>sec. if sec = ''Ask'' then [''Socket'' \<mapsto> ''/tmp/test.sock''] else Map.empty)"

definition listing :: "DirEntry list" where
  "listing = [\<lparr>Name = ''ask.abc123'', IsDir = False\<rparr>, \<lparr>Name = ''ask.bad'', IsDir = False\<rparr>,
     \<lparr>Name = ''ask.dir'', IsDir = True\<rparr>, \<lparr>Name = ''ask.nomsg'', IsDir = False\<rparr>,
     \<lparr>Name = ''ask.old'', IsDir = False\<rparr>, \<lparr>Name = ''sck.1'', IsDir = False\<rparr>]"

definition env0 :: env where
  "env0 = \<lparr>askDir = ''/run'', listen = ''[::]:8080'',
     os_ReadDir = (\<lambda>p. if p = ''/run'' then Inr listing else Inl ''no such directory''),
     ini_Load = (\<lambda>p. if p = ''/run/ask.abc123'' then Inr ask_file
                      else if p = ''/run/ask.old'' then Inr old_file
                      else if p = ''/run/ask.nomsg'' then Inr nomsg_file
                      else Inl ''key-value delimiter not found''),
     time_Parse = (\<lambda>v. if v = ''2001-01-01T00:00:00Z'' then Some 500 else None),
     filepath_Join = (\<lambda>d n. d @ ''/'' @ n),
     clock = (\<lambda>n. 1000 + int n),
     net_Dial = (\<lambda>n a. if a = ''/tmp/test.sock'' then Inr 7 else Inl ''connection refused''),
     conn_Write = (\<lambda>c b. (int (length b), None)),
     net_Listen = (\<lambda>n a. Inr 1),
     net_FileListener = (\<lambda>f. Inr 2)\<rparr>"

definition s0 :: state where
  "s0 = \<lparr>ticks = 0, logged = [], calls = []\<rparr>"

definition env_nodir :: env where
  "env_nodir = env0\<lparr>os_ReadDir := (\<lambda>p. Inl ''permission denied'')\<rparr>"

definition ap0 :: Askpass where
  "ap0 = \<lparr>Path = ''/run/ask.abc123'', Message = ''Enter passphrase'', Icon = [],
     Socket = ''/tmp/test.sock'', NotAfter = 0\<rparr>"

definition old_ap :: Askpass where
  "old_ap = \<lparr>Path = ''/run/ask.old'', Message = ''Old prompt'', Icon = [],
     Socket = ''/tmp/old.sock'', NotAfter = 500\<rparr>"

definition r_ok :: Request where
  "r_ok = \<lparr>ParseForm = None,
     Form = (\<lambda>k. if k = ''ask'' then [''ask.abc123'']
                  else if k = ''answer'' then [''hunter2''] else [])\<rparr>"

definition r_traversal :: Request where
  "r_traversal = \<lparr>ParseForm = None,
     Form = (\<lambda>k. if k = ''ask'' then [''../../etc/passwd'']
                  else if k = ''answer'' then [''hunter2''] else [])\<rparr>"

text \<open>The datagrams a run wrote (the buffers given to \<open>Write\<close>), in order.\<close>

fun writes :: "event list \<Rightarrow> string list" where
  "writes [] = []"
| "writes (EvWrite c b # evs) = b # writes evs"
| "writes (ev # evs) = writes evs"

text \<open>
  Further environments: a socket whose write times out, the flag \<open>-listen fd:3\<close> and
  the flag \<open>-listen fd:-1\<close>; and further requests: a form that does not parse, and a
  form without the field \<open>answer\<close>.
\<close>

definition env_timeout :: env where
  "env_timeout = env0\<lparr>conn_Write := (\<lambda>c b. (0, Some ''i/o timeout''))\<rparr>"

definition r_bad :: Request where
  "r_bad = \<lparr>ParseForm = Some ''invalid semicolon separator in query'', Form = (\<lambda>k. [])\<rparr>"

definition r_empty :: Request where
  "r_empty = \<lparr>ParseForm = None, Form = (\<lambda>k. if k = ''ask'' then [''ask.abc123''] else [])\<rparr>"

definition env_fd :: env where
  "env_fd = env0\<lparr>listen := ''fd:3''\<rparr>"

definition env_neg :: env where
  "env_neg = env0\<lparr>listen := ''fd:-1''\<rparr>"

section \<open>Descriptor and registry: lemmas\<close>

lemma UnmarshalINI_state: "snd (UnmarshalINI e a path s) = call (EvLoad path) s"
  by (simp add: UnmarshalINI_def Let_def split: sum.splits)

lemma IsExpired_None_iff:
  "fst (IsExpired e a s) = None \<longleftrightarrow> IsZero (NotAfter a) \<or> \<not> After (clock e (ticks s)) (NotAfter a)"
  by (simp add: IsExpired_def Now_def)

lemma IsExpired_ticks: "fst (IsExpired e a (call ev s)) = fst (IsExpired e a s)"
  by (simp add: IsExpired_def Now_def call_def)

lemma NewAskpass_fst:
  "fst (NewAskpass e name s) =
     (case fst (UnmarshalINI e zero_Askpass (filepath_Join e (askDir e) name) s) of
        (Some err, ap) \<Rightarrow> Inl err
      | (None, ap) \<Rightarrow> (case fst (IsExpired e ap s) of Some err \<Rightarrow> Inl err | None \<Rightarrow> Inr ap))"
proof -
  let ?path = "filepath_Join e (askDir e) name"
  obtain eo a s1 where u: "UnmarshalINI e zero_Askpass ?path s = ((eo, a), s1)"
    by (metis surj_pair)
  have s1: "s1 = call (EvLoad ?path) s"
    using UnmarshalINI_state[of e zero_Askpass ?path s] u by simp
  obtain s2 where x: "IsExpired e a s1 = (fst (IsExpired e a s), s2)"
    using IsExpired_ticks[of e a "EvLoad ?path" s] s1 by (metis prod.collapse)
  show ?thesis
    using u x by (cases eo; cases "fst (IsExpired e a s)") (simp_all add: NewAskpass_def)
qed

lemma NewAskpass_Inr_iff:
  "fst (NewAskpass e name s) = Inr ap \<longleftrightarrow>
     fst (UnmarshalINI e zero_Askpass (filepath_Join e (askDir e) name) s) = (None, ap) \<and>
     fst (IsExpired e ap s) = None"
  by (auto simp: NewAskpass_fst split: prod.splits option.splits)

lemma loop_append:
  "NewAskers_loop e (xs @ ys) out s =
     (case NewAskers_loop e xs out s of (out', s') \<Rightarrow> NewAskers_loop e ys out' s')"
  by (induction xs arbitrary: out s) (auto split: prod.splits sum.splits)

lemma NewAskpass_logged: "logged (snd (NewAskpass e name s)) = logged s"
  by (auto simp: NewAskpass_def UnmarshalINI_def IsExpired_def Now_def call_def Let_def
      split: sum.splits option.splits prod.splits)

lemma NewAskpass_ticks: "ticks s \<le> ticks (snd (NewAskpass e name s))"
  by (auto simp: NewAskpass_def UnmarshalINI_def IsExpired_def Now_def call_def Let_def
      split: sum.splits option.splits prod.splits)

lemma loop_logged_mono:
  "set (logged s) \<subseteq> set (logged (snd (NewAskers_loop e d out s)))"
proof (induction d arbitrary: out s)
  case Nil
  show ?case by simp
next
  case (Cons x d)
  show ?case
  proof (cases "HasPrefix (Name x) ''ask.'' \<and> \<not> IsDir x")
    case False
    then show ?thesis using Cons.IH[of s out] by auto
  next
    case True
    obtain r s' where n: "NewAskpass e (Name x) s = (r, s')" by (metis surj_pair)
    have l: "logged s' = logged s" using NewAskpass_logged[of e "Name x" s] n by simp
    show ?thesis
    proof (cases r)
      case (Inl err)
      have "set (logged (Println (LogErr err) s')) \<subseteq>
            set (logged (snd (NewAskers_loop e d out (Println (LogErr err) s'))))"
        by (rule Cons.IH)
      then show ?thesis using True n Inl l by (auto simp: Println_def)
    next
      case (Inr ap)
      have "set (logged s') \<subseteq> set (logged (snd (NewAskers_loop e d (out(Name x \<mapsto> ap)) s')))"
        by (rule Cons.IH)
      then show ?thesis using True n Inr l by auto
    qed
  qed
qed

lemma loop_snoc:
  "NewAskers_loop e (xs @ [x]) out s =
     NewAskers_loop e [x] (fst (NewAskers_loop e xs out s)) (snd (NewAskers_loop e xs out s))"
  by (simp only: loop_append case_prod_unfold)

lemma loop_registry:
  assumes "distinct (map Name d)"
  shows "fst (NewAskers_loop e d Map.empty st) name = Some ap \<longleftrightarrow>
     (\<exists>i<length d. Name (d ! i) = name \<and> HasPrefix name ''ask.'' \<and> \<not> IsDir (d ! i) \<and>
        fst (NewAskpass e name (snd (NewAskers_loop e (take i d) Map.empty st))) = Inr ap)"
  using assms
proof (induction d arbitrary: name ap rule: rev_induct)
  case Nil
  show ?case by simp
next
  case (snoc x xs)
  let ?r = "fst (NewAskers_loop e xs Map.empty st)"
  let ?s = "snd (NewAskers_loop e xs Map.empty st)"
  let ?P = "\<lambda>d i. Name (d ! i) = name \<and> HasPrefix name ''ask.'' \<and> \<not> IsDir (d ! i) \<and>
        fst (NewAskpass e name (snd (NewAskers_loop e (take i d) Map.empty st))) = Inr ap"
  have dist: "distinct (map Name xs)" and fresh: "Name x \<notin> Name ` set xs"
    using snoc.prems by auto
  have IH: "\<And>name ap. ?r name = Some ap \<longleftrightarrow>
     (\<exists>i<length xs. Name (xs ! i) = name \<and> HasPrefix name ''ask.'' \<and> \<not> IsDir (xs ! i) \<and>
        fst (NewAskpass e name (snd (NewAskers_loop e (take i xs) Map.empty st))) = Inr ap)"
    using snoc.IH[OF dist] by blast
  have old: "(\<exists>i<length xs. ?P (xs @ [x]) i) \<longleftrightarrow> ?r name = Some ap"
    unfolding IH by (auto simp: nth_append)
  have new: "?P (xs @ [x]) (length xs) \<longleftrightarrow>
     Name x = name \<and> HasPrefix name ''ask.'' \<and> \<not> IsDir x \<and> fst (NewAskpass e name ?s) = Inr ap"
    by simp
  have rhs: "(\<exists>i<length (xs @ [x]). ?P (xs @ [x]) i) \<longleftrightarrow>
     ?r name = Some ap \<or>
     (Name x = name \<and> HasPrefix name ''ask.'' \<and> \<not> IsDir x \<and> fst (NewAskpass e name ?s) = Inr ap)"
    using old new by (simp add: Ex_less_Suc) blast
  have none: "?r (Name x) = None"
  proof (cases "?r (Name x)")
    case None
    then show ?thesis .
  next
    case (Some a)
    then obtain i where "i < length xs" "Name (xs ! i) = Name x" using IH by blast
    then show ?thesis using fresh by (metis image_eqI nth_mem)
  qed
  have lhs: "fst (NewAskers_loop e (xs @ [x]) Map.empty st) name = Some ap \<longleftrightarrow>
     ?r name = Some ap \<or>
     (Name x = name \<and> HasPrefix name ''ask.'' \<and> \<not> IsDir x \<and> fst (NewAskpass e name ?s) = Inr ap)"
  proof (cases "NewAskpass e (Name x) ?s")
    case (Pair r s')
    then show ?thesis using none
      by (cases r) (auto simp: loop_snoc)
  qed
  show ?case using lhs rhs by blast
qed

lemma loop_logs_failure:
  assumes "i < length d" "HasPrefix (Name (d ! i)) ''ask.''" "\<not> IsDir (d ! i)"
    and "fst (NewAskpass e (Name (d ! i)) (snd (NewAskers_loop e (take i d) Map.empty st))) = Inl err"
  shows "LogErr err \<in> set (logged (snd (NewAskers_loop e d Map.empty st)))"
proof -
  let ?r = "fst (NewAskers_loop e (take i d) Map.empty st)"
  let ?s = "snd (NewAskers_loop e (take i d) Map.empty st)"
  obtain s' where n: "NewAskpass e (Name (d ! i)) ?s = (Inl err, s')"
    using assms(4) by (metis prod.collapse)
  have "NewAskers_loop e (take i d @ d ! i # drop (Suc i) d) Map.empty st =
      NewAskers_loop e (d ! i # drop (Suc i) d) ?r ?s"
    by (simp only: loop_append case_prod_unfold)
  then have "NewAskers_loop e d Map.empty st = NewAskers_loop e (d ! i # drop (Suc i) d) ?r ?s"
    by (simp only: id_take_nth_drop[OF assms(1), symmetric])
  also have "\<dots> = NewAskers_loop e (drop (Suc i) d) ?r (Println (LogErr err) s')"
    using assms(2,3) n by simp
  finally have "set (logged (Println (LogErr err) s')) \<subseteq>
      set (logged (snd (NewAskers_loop e d Map.empty st)))"
    using loop_logged_mono[of "Println (LogErr err) s'" e "drop (Suc i) d" ?r] by simp
  then show ?thesis by (auto simp: Println_def)
qed

lemma loop_sound:
  "fst (NewAskers_loop e d out s) name = Some ap \<Longrightarrow>
     out name = Some ap \<or> (\<exists>s'. ticks s \<le> ticks s' \<and> fst (NewAskpass e name s') = Inr ap)"
proof (induction d arbitrary: out s)
  case Nil
  then show ?case by simp
next
  case (Cons x d)
  show ?case
  proof (cases "HasPrefix (Name x) ''ask.'' \<and> \<not> IsDir x")
    case False
    then show ?thesis using Cons.IH[of out s] Cons.prems by auto
  next
    case True
    obtain r s' where n: "NewAskpass e (Name x) s = (r, s')" by (metis surj_pair)
    have l: "ticks s \<le> ticks s'" using NewAskpass_ticks[of s e "Name x"] n by simp
    show ?thesis
    proof (cases r)
      case (Inl err)
      have "fst (NewAskers_loop e d out (Println (LogErr err) s')) name = Some ap"
        using Cons.prems True n Inl by simp
      from Cons.IH[OF this] show ?thesis using l
        by (auto simp: Println_def intro: order_trans)
    next
      case (Inr a)
      have "fst (NewAskers_loop e d (out(Name x \<mapsto> a)) s') name = Some ap"
        using Cons.prems True n Inr by simp
      from Cons.IH[OF this] have
        "(out(Name x \<mapsto> a)) name = Some ap \<or>
         (\<exists>s''. ticks s' \<le> ticks s'' \<and> fst (NewAskpass e name s'') = Inr ap)" .
      then show ?thesis
      proof
        assume u: "(out(Name x \<mapsto> a)) name = Some ap"
        show ?thesis
        proof (cases "name = Name x")
          case True
          then have "fst (NewAskpass e name s) = Inr ap" using u n Inr by simp
          then show ?thesis by blast
        next
          case False
          then show ?thesis using u by simp
        qed
      next
        assume "\<exists>s''. ticks s' \<le> ticks s'' \<and> fst (NewAskpass e name s'') = Inr ap"
        then show ?thesis using l by (meson order_trans)
      qed
    qed
  qed
qed

lemmas env0_simps = env0_def listing_def ask_file_def old_file_def nomsg_file_def s0_def ap0_def

lemmas model_defs = NewAskers_def NewAskpass_def UnmarshalINI_def IsExpired_def Now_def
  call_def Println_def HasPrefix_def Key_String_def MustTime_def IsZero_def After_def
  zero_Askpass_def Let_def Find_def

lemma NewAskers_env0:
  "NewAskers env0 s0 =
     ([''ask.abc123'' \<mapsto> ap0],
      \<lparr>ticks = 1,
       logged = [LogErr (ErrExternal ''key-value delimiter not found''),
                 LogErr (ErrMissingKey ''Message''), LogErr (ErrExpired 1000 500)],
       calls = [EvReadDir ''/run'', EvLoad ''/run/ask.abc123'', EvLoad ''/run/ask.bad'',
                EvLoad ''/run/ask.nomsg'', EvLoad ''/run/ask.old'']\<rparr>)"
  by (simp add: env0_simps model_defs)

lemma entry_state_env0_1:
  "entry_state env0 listing s0 1 =
     \<lparr>ticks = 0, logged = [], calls = [EvReadDir ''/run'', EvLoad ''/run/ask.abc123'']\<rparr>"
  by (simp add: entry_state_def env0_simps model_defs)

section \<open>The registry's contents\<close>

text \<open>
  C4. \<open>NewAskers\<close> returns a registry and no error. When the directory cannot be
  listed, the error is logged and the registry is empty: every lookup finds nothing.
  When it is listed (file names in a listing are distinct), a name is in the registry,
  with descriptor \<open>ap\<close>, exactly when it is the name of an entry of the listing that
  has the prefix \<open>ask.\<close>, is no directory, whose file parses to \<open>ap\<close> and is not
  expired when the loop reaches it; an entry with the prefix that is no directory and
  that \<open>NewAskpass\<close> refuses has its error logged and is not in the registry.
\<close>

theorem NewAskers_registry:
  "(os_ReadDir e (askDir e) = Inl err \<longrightarrow>
      fst (NewAskers e s) = Map.empty \<and>
      (\<forall>name. Find (fst (NewAskers e s)) name = None) \<and>
      LogErr (ErrExternal err) \<in> set (logged (snd (NewAskers e s)))) \<and>
   (os_ReadDir e (askDir e) = Inr d \<and> distinct (map Name d) \<longrightarrow>
      (\<forall>name ap. Find (fst (NewAskers e s)) name = Some ap \<longleftrightarrow>
         (\<exists>i<length d. Name (d ! i) = name \<and> HasPrefix name ''ask.'' \<and> \<not> IsDir (d ! i) \<and>
            fst (UnmarshalINI e zero_Askpass (filepath_Join e (askDir e) name)
                   (entry_state e d s i)) = (None, ap) \<and>
            fst (IsExpired e ap (entry_state e d s i)) = None)) \<and>
      (\<forall>i<length d. \<forall>err'.
          HasPrefix (Name (d ! i)) ''ask.'' \<and> \<not> IsDir (d ! i) \<and>
          fst (NewAskpass e (Name (d ! i)) (entry_state e d s i)) = Inl err' \<longrightarrow>
          LogErr err' \<in> set (logged (snd (NewAskers e s))) \<and>
          Find (fst (NewAskers e s)) (Name (d ! i)) = None))"
proof (intro conjI impI allI)
  assume "os_ReadDir e (askDir e) = Inl err"
  then show "fst (NewAskers e s) = Map.empty"
    and "\<And>name. Find (fst (NewAskers e s)) name = None"
    and "LogErr (ErrExternal err) \<in> set (logged (snd (NewAskers e s)))"
    by (simp_all add: NewAskers_def Find_def Println_def)
next
  fix name ap
  assume h: "os_ReadDir e (askDir e) = Inr d \<and> distinct (map Name d)"
  let ?s0 = "call (EvReadDir (askDir e)) s"
  have F: "Find (fst (NewAskers e s)) name = fst (NewAskers_loop e d Map.empty ?s0) name"
    using h by (simp add: NewAskers_def Find_def split: option.splits)
  show "Find (fst (NewAskers e s)) name = Some ap \<longleftrightarrow>
         (\<exists>i<length d. Name (d ! i) = name \<and> HasPrefix name ''ask.'' \<and> \<not> IsDir (d ! i) \<and>
            fst (UnmarshalINI e zero_Askpass (filepath_Join e (askDir e) name)
                   (entry_state e d s i)) = (None, ap) \<and>
            fst (IsExpired e ap (entry_state e d s i)) = None)"
    unfolding F entry_state_def
    using loop_registry[of d e ?s0 name ap] h
    by (simp add: NewAskpass_Inr_iff)
next
  fix i err'
  assume h: "os_ReadDir e (askDir e) = Inr d \<and> distinct (map Name d)"
    and i: "i < length d"
    and f: "HasPrefix (Name (d ! i)) ''ask.'' \<and> \<not> IsDir (d ! i) \<and>
          fst (NewAskpass e (Name (d ! i)) (entry_state e d s i)) = Inl err'"
  let ?s0 = "call (EvReadDir (askDir e)) s"
  have N: "NewAskers e s = NewAskers_loop e d Map.empty ?s0"
    using h by (simp add: NewAskers_def)
  show "LogErr err' \<in> set (logged (snd (NewAskers e s)))"
    unfolding N using loop_logs_failure[of i d e ?s0 err'] i f
    by (simp add: entry_state_def)
  show "Find (fst (NewAskers e s)) (Name (d ! i)) = None"
  proof (cases "fst (NewAskers_loop e d Map.empty ?s0) (Name (d ! i))")
    case None
    then show ?thesis unfolding N by (simp add: Find_def)
  next
    case (Some ap)
    then obtain j where j: "j < length d" "Name (d ! j) = Name (d ! i)"
      "fst (NewAskpass e (Name (d ! i)) (snd (NewAskers_loop e (take j d) Map.empty ?s0))) = Inr ap"
      using loop_registry[of d e ?s0 "Name (d ! i)" ap] h by blast
    have "map Name d ! j = map Name d ! i" using j i by simp
    then have "j = i" using nth_eq_iff_index_eq[of "map Name d" j i] h i j(1) by simp
    then show ?thesis using j(3) f by (simp add: entry_state_def)
  qed
qed

theorem NewAskers_registry_witness:
  "os_ReadDir env0 (askDir env0) = Inr listing \<and> distinct (map Name listing) \<and>
   Find (fst (NewAskers env0 s0)) ''ask.abc123'' = Some ap0 \<and>
   (1::nat) < length listing \<and> HasPrefix (Name (listing ! 1)) ''ask.'' \<and>
   \<not> IsDir (listing ! 1) \<and>
   fst (NewAskpass env0 (Name (listing ! 1)) (entry_state env0 listing s0 1)) =
     Inl (ErrExternal ''key-value delimiter not found'') \<and>
   LogErr (ErrExternal ''key-value delimiter not found'') \<in> set (logged (snd (NewAskers env0 s0))) \<and>
   Find (fst (NewAskers env0 s0)) ''ask.bad'' = None \<and>
   os_ReadDir env_nodir (askDir env_nodir) = Inl ''permission denied'' \<and>
   Find (fst (NewAskers env_nodir s0)) ''ask.abc123'' = None \<and>
   LogErr (ErrExternal ''permission denied'') \<in> set (logged (snd (NewAskers env_nodir s0)))"
proof -
  have r: "os_ReadDir env0 (askDir env0) = Inr listing \<and> distinct (map Name listing)"
    by (simp add: env0_simps)
  have f: "(1::nat) < length listing \<and> HasPrefix (Name (listing ! 1)) ''ask.'' \<and>
     \<not> IsDir (listing ! 1) \<and>
     fst (NewAskpass env0 (Name (listing ! 1)) (entry_state env0 listing s0 1)) =
       Inl (ErrExternal ''key-value delimiter not found'')"
    unfolding entry_state_env0_1 by (simp add: env0_simps model_defs)
  have n: "os_ReadDir env_nodir (askDir env_nodir) = Inl ''permission denied''"
    by (simp add: env_nodir_def)
  have a: "Find (fst (NewAskers env0 s0)) ''ask.abc123'' = Some ap0"
    by (simp add: NewAskers_env0 Find_def)
  have b': "LogErr (ErrExternal ''key-value delimiter not found'') \<in> set (logged (snd (NewAskers env0 s0))) \<and>
     Find (fst (NewAskers env0 s0)) (Name (listing ! 1)) = None"
  proof (rule NewAskers_registry[of env0 "''x''" s0 listing, THEN conjunct2, THEN mp, OF r,
        THEN conjunct2, THEN spec, THEN mp, THEN spec, THEN mp])
    show "1 < length listing" using f by simp
    show "HasPrefix (Name (listing ! 1)) ''ask.'' \<and> \<not> IsDir (listing ! 1) \<and>
      fst (NewAskpass env0 (Name (listing ! 1)) (entry_state env0 listing s0 1)) =
        Inl (ErrExternal ''key-value delimiter not found'')" using f by simp
  qed
  have b: "LogErr (ErrExternal ''key-value delimiter not found'') \<in> set (logged (snd (NewAskers env0 s0))) \<and>
     Find (fst (NewAskers env0 s0)) ''ask.bad'' = None"
    using b' by (simp add: listing_def)
  from NewAskers_registry[of env_nodir "''permission denied''" s0 "[]"] n
  have c: "Find (fst (NewAskers env_nodir s0)) ''ask.abc123'' = None \<and>
     LogErr (ErrExternal ''permission denied'') \<in> set (logged (snd (NewAskers env_nodir s0)))"
    by blast
  show ?thesis using r f n a b c by simp
qed

lemma NewAskers_sound:
  assumes "fst (NewAskers e s) name = Some ap"
  shows "\<exists>s'. ticks s \<le> ticks s' \<and> fst (NewAskpass e name s') = Inr ap"
proof (cases "os_ReadDir e (askDir e)")
  case (Inl m)
  then show ?thesis using assms by (simp add: NewAskers_def)
next
  case (Inr d)
  then have "fst (NewAskers_loop e d Map.empty (call (EvReadDir (askDir e)) s)) name = Some ap"
    using assms by (simp add: NewAskers_def)
  from loop_sound[OF this] show ?thesis by (simp add: call_def)
qed

section \<open>Expiry\<close>

text \<open>
  C5. \<open>IsExpired\<close> reports no error when \<open>NotAfter\<close> is the zero time. When it is
  set, \<open>IsExpired\<close> reports an error exactly when the clock reads strictly after
  \<open>NotAfter\<close>; at a reading equal to \<open>NotAfter\<close> the descriptor is not expired.
  \<open>NewAskpass\<close> refuses a descriptor that parsed and is expired, and a descriptor that
  is expired at every reading of the clock from the start of an enumeration is in no
  registry that enumeration builds.
\<close>

theorem IsExpired_strictly_after:
  "(IsZero (NotAfter a) \<longrightarrow> fst (IsExpired e a s) = None) \<and>
   (\<not> IsZero (NotAfter a) \<longrightarrow>
      (fst (IsExpired e a s) \<noteq> None \<longleftrightarrow> NotAfter a < clock e (ticks s))) \<and>
   (clock e (ticks s) = NotAfter a \<longrightarrow> fst (IsExpired e a s) = None) \<and>
   (fst (UnmarshalINI e zero_Askpass (filepath_Join e (askDir e) name) s) = (None, a) \<and>
    fst (IsExpired e a s) = Some err \<longrightarrow> fst (NewAskpass e name s) = Inl err) \<and>
   (\<not> IsZero (NotAfter a) \<and> (\<forall>n\<ge>ticks s. NotAfter a < clock e n) \<longrightarrow>
      a \<notin> ran (fst (NewAskers e s)))"
proof (intro conjI impI)
  show "IsZero (NotAfter a) \<Longrightarrow> fst (IsExpired e a s) = None"
    by (simp add: IsExpired_def)
  show "\<not> IsZero (NotAfter a) \<Longrightarrow>
      (fst (IsExpired e a s) \<noteq> None) = (NotAfter a < clock e (ticks s))"
    by (simp add: IsExpired_def Now_def After_def)
  show "clock e (ticks s) = NotAfter a \<Longrightarrow> fst (IsExpired e a s) = None"
    by (simp add: IsExpired_def Now_def After_def)
  show "fst (UnmarshalINI e zero_Askpass (filepath_Join e (askDir e) name) s) = (None, a) \<and>
    fst (IsExpired e a s) = Some err \<Longrightarrow> fst (NewAskpass e name s) = Inl err"
    by (simp add: NewAskpass_fst)
next
  assume h: "\<not> IsZero (NotAfter a) \<and> (\<forall>n\<ge>ticks s. NotAfter a < clock e n)"
  show "a \<notin> ran (fst (NewAskers e s))"
  proof
    assume "a \<in> ran (fst (NewAskers e s))"
    then obtain name where "fst (NewAskers e s) name = Some a" by (auto simp: ran_def)
    from NewAskers_sound[OF this] obtain s' where
      s': "ticks s \<le> ticks s'" "fst (NewAskpass e name s') = Inr a" by blast
    then have "fst (IsExpired e a s') = None" by (simp add: NewAskpass_Inr_iff)
    then have "\<not> After (clock e (ticks s')) (NotAfter a)"
      using h by (simp add: IsExpired_None_iff)
    then show False using h s'(1) by (simp add: After_def)
  qed
qed

theorem IsExpired_strictly_after_witness:
  "IsZero (NotAfter ap0) \<and> fst (IsExpired env0 ap0 s0) = None \<and>
   \<not> IsZero (NotAfter old_ap) \<and> fst (IsExpired env0 old_ap s0) \<noteq> None \<and>
   NotAfter old_ap < clock env0 (ticks s0) \<and>
   clock env0 (ticks s0) = NotAfter (old_ap\<lparr>NotAfter := 1000\<rparr>) \<and>
   fst (IsExpired env0 (old_ap\<lparr>NotAfter := 1000\<rparr>) s0) = None \<and>
   fst (UnmarshalINI env0 zero_Askpass (filepath_Join env0 (askDir env0) ''ask.old'') s0) =
     (None, old_ap) \<and>
   fst (IsExpired env0 old_ap s0) = Some (ErrExpired 1000 500) \<and>
   fst (NewAskpass env0 ''ask.old'' s0) = Inl (ErrExpired 1000 500) \<and>
   old_ap \<notin> ran (fst (NewAskers env0 s0))"
proof -
  have z: "IsZero (NotAfter ap0)" by (simp add: ap0_def IsZero_def)
  have nz: "\<not> IsZero (NotAfter old_ap)" by (simp add: old_ap_def IsZero_def)
  have lt: "NotAfter old_ap < clock env0 (ticks s0)" by (simp add: old_ap_def env0_def s0_def)
  have eq: "clock env0 (ticks s0) = NotAfter (old_ap\<lparr>NotAfter := 1000\<rparr>)"
    by (simp add: env0_def s0_def)
  have u: "fst (UnmarshalINI env0 zero_Askpass (filepath_Join env0 (askDir env0) ''ask.old'') s0) =
     (None, old_ap)"
    by (simp add: env0_simps old_ap_def model_defs)
  have x: "fst (IsExpired env0 old_ap s0) = Some (ErrExpired 1000 500)"
    by (simp add: env0_simps old_ap_def model_defs)
  have al: "\<not> IsZero (NotAfter old_ap) \<and> (\<forall>n\<ge>ticks s0. NotAfter old_ap < clock env0 n)"
    by (simp add: old_ap_def env0_def IsZero_def)
  note t1 = IsExpired_strictly_after[of ap0 env0 s0 "''x''" ErrShortWrite]
  note t2 = IsExpired_strictly_after[of old_ap env0 s0 "''ask.old''" "ErrExpired 1000 500"]
  note t3 = IsExpired_strictly_after[of "old_ap\<lparr>NotAfter := 1000\<rparr>" env0 s0 "''x''" ErrShortWrite]
  have c1: "fst (IsExpired env0 ap0 s0) = None" using t1 z by blast
  have c2: "fst (IsExpired env0 old_ap s0) \<noteq> None" using t2 nz lt by blast
  have c3: "fst (IsExpired env0 (old_ap\<lparr>NotAfter := 1000\<rparr>) s0) = None" using t3 eq by blast
  have c4: "fst (NewAskpass env0 ''ask.old'' s0) = Inl (ErrExpired 1000 500)"
    using t2 u x by blast
  have c5: "old_ap \<notin> ran (fst (NewAskers env0 s0))" using t2 al by blast
  show ?thesis using z nz lt eq u x c1 c2 c3 c4 c5 by blast
qed

section \<open>Missing keys\<close>

text \<open>
  C7. A file that loads but whose \<open>Message\<close> or \<open>Socket\<close> is empty makes
  \<open>UnmarshalINI\<close> fail with \<open>ErrMissingKey\<close>, naming the first such key. A file
  that does not load fails with the loader's error, which is no \<open>ErrMissingKey\<close>. No
  registry holds the name of a file with an empty \<open>Message\<close> or \<open>Socket\<close>.
\<close>

theorem UnmarshalINI_missing_key:
  "(ini_Load e path = Inr f \<and>
    (Key_String f ''Ask'' ''Message'' = [] \<or> Key_String f ''Ask'' ''Socket'' = []) \<longrightarrow>
      fst (fst (UnmarshalINI e a path s)) =
        Some (ErrMissingKey (if Key_String f ''Ask'' ''Message'' = [] then ''Message''
                             else ''Socket''))) \<and>
   (ini_Load e path = Inl m \<longrightarrow>
      fst (fst (UnmarshalINI e a path s)) = Some (ErrExternal m) \<and>
      (\<forall>k. fst (fst (UnmarshalINI e a path s)) \<noteq> Some (ErrMissingKey k))) \<and>
   (ini_Load e (filepath_Join e (askDir e) name) = Inr f \<and>
    (Key_String f ''Ask'' ''Message'' = [] \<or> Key_String f ''Ask'' ''Socket'' = []) \<longrightarrow>
      Find (fst (NewAskers e s)) name = None)"
proof (intro conjI impI)
  show "ini_Load e path = Inr f \<and>
    (Key_String f ''Ask'' ''Message'' = [] \<or> Key_String f ''Ask'' ''Socket'' = []) \<Longrightarrow>
      fst (fst (UnmarshalINI e a path s)) =
        Some (ErrMissingKey (if Key_String f ''Ask'' ''Message'' = [] then ''Message''
                             else ''Socket''))"
    by (auto simp: UnmarshalINI_def Let_def)
  show "ini_Load e path = Inl m \<Longrightarrow> fst (fst (UnmarshalINI e a path s)) = Some (ErrExternal m)"
    by (simp add: UnmarshalINI_def)
  show "ini_Load e path = Inl m \<Longrightarrow>
      \<forall>k. fst (fst (UnmarshalINI e a path s)) \<noteq> Some (ErrMissingKey k)"
    by (simp add: UnmarshalINI_def)
next
  assume h: "ini_Load e (filepath_Join e (askDir e) name) = Inr f \<and>
    (Key_String f ''Ask'' ''Message'' = [] \<or> Key_String f ''Ask'' ''Socket'' = [])"
  show "Find (fst (NewAskers e s)) name = None"
  proof (cases "fst (NewAskers e s) name")
    case None
    then show ?thesis by (simp add: Find_def)
  next
    case (Some ap)
    from NewAskers_sound[OF this] obtain s' where "fst (NewAskpass e name s') = Inr ap"
      by blast
    then have "fst (fst (UnmarshalINI e zero_Askpass (filepath_Join e (askDir e) name) s')) = None"
      by (simp add: NewAskpass_Inr_iff)
    then have False using h by (auto simp: UnmarshalINI_def Let_def split: if_splits)
    then show ?thesis ..
  qed
qed

theorem UnmarshalINI_missing_key_witness:
  "ini_Load env0 ''/run/ask.nomsg'' = Inr nomsg_file \<and>
   Key_String nomsg_file ''Ask'' ''Message'' = [] \<and>
   fst (fst (UnmarshalINI env0 zero_Askpass ''/run/ask.nomsg'' s0)) =
     Some (ErrMissingKey ''Message'') \<and>
   ini_Load env0 ''/run/ask.bad'' = Inl ''key-value delimiter not found'' \<and>
   fst (fst (UnmarshalINI env0 zero_Askpass ''/run/ask.bad'' s0)) =
     Some (ErrExternal ''key-value delimiter not found'') \<and>
   fst (fst (UnmarshalINI env0 zero_Askpass ''/run/ask.bad'' s0)) \<noteq>
     Some (ErrMissingKey ''Message'') \<and>
   ini_Load env0 (filepath_Join env0 (askDir env0) ''ask.nomsg'') = Inr nomsg_file \<and>
   Find (fst (NewAskers env0 s0)) ''ask.nomsg'' = None"
proof -
  have l: "ini_Load env0 ''/run/ask.nomsg'' = Inr nomsg_file" by (simp add: env0_def)
  have k: "Key_String nomsg_file ''Ask'' ''Message'' = []"
    by (simp add: nomsg_file_def Key_String_def)
  have b: "ini_Load env0 ''/run/ask.bad'' = Inl ''key-value delimiter not found''"
    by (simp add: env0_def)
  have j: "ini_Load env0 (filepath_Join env0 (askDir env0) ''ask.nomsg'') = Inr nomsg_file"
    by (simp add: env0_def)
  note t1 = UnmarshalINI_missing_key[of env0 "''/run/ask.nomsg''" nomsg_file zero_Askpass s0
      "''x''" "''ask.nomsg''"]
  note t2 = UnmarshalINI_missing_key[of env0 "''/run/ask.bad''" nomsg_file zero_Askpass s0
      "''key-value delimiter not found''" "''ask.nomsg''"]
  have c1: "fst (fst (UnmarshalINI env0 zero_Askpass ''/run/ask.nomsg'' s0)) =
     Some (ErrMissingKey ''Message'')" using t1 l k by simp
  have c2: "fst (fst (UnmarshalINI env0 zero_Askpass ''/run/ask.bad'' s0)) =
     Some (ErrExternal ''key-value delimiter not found'') \<and>
     fst (fst (UnmarshalINI env0 zero_Askpass ''/run/ask.bad'' s0)) \<noteq>
     Some (ErrMissingKey ''Message'')" using t2 b by blast
  have c3: "Find (fst (NewAskers env0 s0)) ''ask.nomsg'' = None" using t1 j k by blast
  show ?thesis using l k b j c1 c2 c3 by blast
qed

section \<open>Lookup and the filesystem\<close>

lemma fs_accesses_append: "fs_accesses (xs @ ys) = fs_accesses xs @ fs_accesses ys"
  by (induction xs rule: fs_accesses.induct) simp_all

lemma NewAskpass_calls:
  "calls (snd (NewAskpass e name s)) = calls s @ [EvLoad (filepath_Join e (askDir e) name)]"
  by (auto simp: NewAskpass_def UnmarshalINI_def IsExpired_def Now_def call_def Let_def
      split: sum.splits option.splits prod.splits)

lemma loop_calls:
  "calls (snd (NewAskers_loop e d out s)) =
     calls s @ map (\<lambda>x. EvLoad (filepath_Join e (askDir e) (Name x)))
                   (filter (\<lambda>x. HasPrefix (Name x) ''ask.'' \<and> \<not> IsDir x) d)"
proof (induction d arbitrary: out s)
  case Nil
  show ?case by simp
next
  case (Cons x d)
  show ?case
  proof (cases "HasPrefix (Name x) ''ask.'' \<and> \<not> IsDir x")
    case False
    then show ?thesis using Cons.IH[of out s] by auto
  next
    case True
    obtain r s' where n: "NewAskpass e (Name x) s = (r, s')" by (metis surj_pair)
    have c: "calls s' = calls s @ [EvLoad (filepath_Join e (askDir e) (Name x))]"
      using NewAskpass_calls[of e "Name x" s] n by simp
    show ?thesis
    proof (cases r)
      case (Inl err)
      have "calls (snd (NewAskers_loop e (x # d) out s)) =
          calls (snd (NewAskers_loop e d out (Println (LogErr err) s')))"
        using True n Inl by simp
      also have "\<dots> = calls (Println (LogErr err) s') @
          map (\<lambda>x. EvLoad (filepath_Join e (askDir e) (Name x)))
              (filter (\<lambda>x. HasPrefix (Name x) ''ask.'' \<and> \<not> IsDir x) d)"
        by (rule Cons.IH)
      finally show ?thesis using c True by (simp add: Println_def)
    next
      case (Inr ap)
      have "calls (snd (NewAskers_loop e (x # d) out s)) =
          calls (snd (NewAskers_loop e d (out(Name x \<mapsto> ap)) s'))"
        using True n Inr by simp
      also have "\<dots> = calls s' @
          map (\<lambda>x. EvLoad (filepath_Join e (askDir e) (Name x)))
              (filter (\<lambda>x. HasPrefix (Name x) ''ask.'' \<and> \<not> IsDir x) d)"
        by (rule Cons.IH)
      finally show ?thesis using c True by simp
    qed
  qed
qed

lemma fs_accesses_loads: "fs_accesses (map (\<lambda>x. EvLoad (g x)) xs) = map g xs"
  by (induction xs) simp_all

lemma NewAskers_fs:
  "fs_accesses (calls (snd (NewAskers e s))) =
     fs_accesses (calls s) @ askDir e #
       (case os_ReadDir e (askDir e) of
          Inl m \<Rightarrow> []
        | Inr d \<Rightarrow> map (\<lambda>x. filepath_Join e (askDir e) (Name x))
                     (filter (\<lambda>x. HasPrefix (Name x) ''ask.'' \<and> \<not> IsDir x) d))"
  by (simp add: NewAskers_def loop_calls fs_accesses_append fs_accesses_loads call_def
      Println_def split: sum.splits)

lemma Answer_fs: "fs_accesses (calls (snd (Answer e a s st))) = fs_accesses (calls st)"
  by (simp add: Answer_def Now_def call_def Let_def fs_accesses_append
      split: sum.splits prod.splits option.splits)

lemma ServePass_fs:
  "fs_accesses (calls (snd (ServePass e r s))) =
     (case ParseForm r of
        Some m \<Rightarrow> fs_accesses (calls s)
      | None \<Rightarrow> fs_accesses (calls (snd (NewAskers e s))))"
proof (cases "ParseForm r")
  case (Some m)
  then show ?thesis by (simp add: ServePass_def Error_def Println_def)
next
  case None
  obtain askers s1 where n: "NewAskers e s = (askers, s1)" by (metis surj_pair)
  show ?thesis
  proof (cases "Find askers (FormValue r ''ask'')")
    case N: None
    then show ?thesis using None n by (simp add: ServePass_def Error_def Println_def)
  next
    case (Some ap)
    obtain res s2 where a: "Answer e ap (FormValue r ''answer'') s1 = (res, s2)"
      by (metis surj_pair)
    have "fs_accesses (calls s2) = fs_accesses (calls s1)"
      using Answer_fs[of e ap "FormValue r ''answer''" s1] a by simp
    then show ?thesis using None n Some a
      by (cases res) (simp_all add: ServePass_def Error_def Println_def)
  qed
qed

text \<open>
  C1. \<open>Find\<close> takes the registry and the name only, so it reads no file; it returns
  nothing or a descriptor of the registry. In \<open>ServePass\<close>, where the name arrives,
  the paths handed to the filesystem are the same for any two requests whose forms
  parse alike, whatever names they ask for; each such path is the directory or the
  directory joined with the name of an entry that the listing returned; and a name
  that is not in the registry causes no call beyond those of the enumeration.
\<close>

theorem Find_no_filesystem_access:
  "(Find a name = None \<or> (\<exists>ap\<in>ran a. Find a name = Some ap)) \<and>
   (ParseForm r = ParseForm r' \<longrightarrow>
      fs_accesses (calls (snd (ServePass e r s))) =
      fs_accesses (calls (snd (ServePass e r' s)))) \<and>
   (\<forall>p\<in>set (fs_accesses (calls (snd (ServePass e r s)))).
      p \<in> set (fs_accesses (calls s)) \<or> p = askDir e \<or>
      (\<exists>d. os_ReadDir e (askDir e) = Inr d \<and>
           (\<exists>x\<in>set d. p = filepath_Join e (askDir e) (Name x)))) \<and>
   (ParseForm r = None \<and> Find (fst (NewAskers e s)) (FormValue r ''ask'') = None \<longrightarrow>
      calls (snd (ServePass e r s)) = calls (snd (NewAskers e s)))"
proof (intro conjI impI ballI)
  show "Find a name = None \<or> (\<exists>ap\<in>ran a. Find a name = Some ap)"
    by (cases "a name") (auto simp: Find_def ran_def)
  show "ParseForm r = ParseForm r' \<Longrightarrow>
      fs_accesses (calls (snd (ServePass e r s))) =
      fs_accesses (calls (snd (ServePass e r' s)))"
    by (simp add: ServePass_fs)
  show "ParseForm r = None \<and> Find (fst (NewAskers e s)) (FormValue r ''ask'') = None \<Longrightarrow>
      calls (snd (ServePass e r s)) = calls (snd (NewAskers e s))"
    by (auto simp: ServePass_def Error_def Println_def split: prod.splits)
next
  fix p
  assume "p \<in> set (fs_accesses (calls (snd (ServePass e r s))))"
  then have "p \<in> set (fs_accesses (calls s)) \<or>
     p \<in> set (fs_accesses (calls (snd (NewAskers e s))))"
    by (simp add: ServePass_fs split: option.splits)
  then show "p \<in> set (fs_accesses (calls s)) \<or> p = askDir e \<or>
      (\<exists>d. os_ReadDir e (askDir e) = Inr d \<and>
           (\<exists>x\<in>set d. p = filepath_Join e (askDir e) (Name x)))"
    by (cases "os_ReadDir e (askDir e)") (auto simp: NewAskers_fs)
qed

theorem Find_no_filesystem_access_witness:
  "ParseForm r_traversal = ParseForm r_ok \<and>
   ParseForm r_traversal = None \<and>
   FormValue r_traversal ''ask'' = ''../../etc/passwd'' \<and>
   Find (fst (NewAskers env0 s0)) (FormValue r_traversal ''ask'') = None \<and>
   calls (snd (ServePass env0 r_traversal s0)) = calls (snd (NewAskers env0 s0)) \<and>
   fs_accesses (calls (snd (ServePass env0 r_traversal s0))) =
     fs_accesses (calls (snd (ServePass env0 r_ok s0))) \<and>
   fs_accesses (calls (snd (ServePass env0 r_ok s0))) =
     [''/run'', ''/run/ask.abc123'', ''/run/ask.bad'', ''/run/ask.nomsg'', ''/run/ask.old''] \<and>
   ''/run/ask.old'' \<in> set (fs_accesses (calls (snd (ServePass env0 r_traversal s0)))) \<and>
   (\<exists>d. os_ReadDir env0 (askDir env0) = Inr d \<and>
        (\<exists>x\<in>set d. ''/run/ask.old'' = filepath_Join env0 (askDir env0) (Name x)))"
proof -
  have p: "ParseForm r_traversal = ParseForm r_ok" "ParseForm r_traversal = None"
    by (simp_all add: r_traversal_def r_ok_def)
  have v: "FormValue r_traversal ''ask'' = ''../../etc/passwd''"
    by (simp add: r_traversal_def FormValue_def)
  have f: "Find (fst (NewAskers env0 s0)) (FormValue r_traversal ''ask'') = None"
    unfolding v by (simp add: NewAskers_env0 Find_def)
  have ok: "fs_accesses (calls (snd (ServePass env0 r_ok s0))) =
     [''/run'', ''/run/ask.abc123'', ''/run/ask.bad'', ''/run/ask.nomsg'', ''/run/ask.old'']"
    by (simp add: ServePass_fs r_ok_def NewAskers_env0)
  note t = Find_no_filesystem_access[of "fst (NewAskers env0 s0)" "''../../etc/passwd''"
      r_traversal r_ok env0 s0]
  have c0: "calls (snd (ServePass env0 r_traversal s0)) = calls (snd (NewAskers env0 s0))"
    using t p f by blast
  have c1: "fs_accesses (calls (snd (ServePass env0 r_traversal s0))) =
     fs_accesses (calls (snd (ServePass env0 r_ok s0)))" using t p by blast
  have m: "''/run/ask.old'' \<in> set (fs_accesses (calls (snd (ServePass env0 r_traversal s0))))"
    unfolding c1 ok by simp
  have n: "''/run/ask.old'' \<notin> set (fs_accesses (calls s0))" "''/run/ask.old'' \<noteq> askDir env0"
    by (simp_all add: s0_def env0_def)
  have c2: "\<exists>d. os_ReadDir env0 (askDir env0) = Inr d \<and>
        (\<exists>x\<in>set d. ''/run/ask.old'' = filepath_Join env0 (askDir env0) (Name x))"
    using t m n by blast
  show ?thesis using p v f ok c0 c1 m c2 by blast
qed

section \<open>Answer relay and request handler\<close>

lemma writes_append: "writes (xs @ ys) = writes xs @ writes ys"
  by (induction xs rule: writes.induct) simp_all

lemma writes_loads: "writes (map (\<lambda>x. EvLoad (g x)) xs) = []"
  by (induction xs) simp_all

lemma NewAskers_writes: "writes (calls (snd (NewAskers e s))) = writes (calls s)"
  by (simp add: NewAskers_def loop_calls writes_append writes_loads call_def Println_def
      split: sum.splits)

lemma Answer_calls:
  "calls (snd (Answer e a s st)) =
     (case net_Dial e ''unixgram'' (Socket a) of
        Inl m \<Rightarrow> calls st @ [EvDial ''unixgram'' (Socket a)]
      | Inr sock \<Rightarrow>
          calls st @ [EvDial ''unixgram'' (Socket a),
                      EvSetDeadline sock (clock e (ticks st) + WriteTimeout),
                      EvWrite sock (CHR ''+'' # s), EvClose sock])"
  by (simp add: Answer_def Now_def call_def Let_def split: sum.splits prod.splits option.splits)

lemma Answer_result:
  "fst (Answer e a s st) =
     (case net_Dial e ''unixgram'' (Socket a) of
        Inl m \<Rightarrow> Some (ErrExternal m)
      | Inr sock \<Rightarrow>
          (case snd (conn_Write e sock (CHR ''+'' # s)) of
             Some m \<Rightarrow> Some (ErrExternal m)
           | None \<Rightarrow>
               if fst (conn_Write e sock (CHR ''+'' # s)) < int (length s)
               then Some ErrShortWrite else None))"
  by (simp add: Answer_def Now_def call_def Let_def split: sum.splits prod.splits option.splits)

lemma Answer_closes:
  "net_Dial e ''unixgram'' (Socket a) = Inr sock \<Longrightarrow>
     last (calls (snd (Answer e a s st))) = EvClose sock"
  by (simp add: Answer_calls)

lemma ServePass_result:
  "fst (ServePass e r s) =
     (case ParseForm r of
        Some m \<Rightarrow> HttpError (ErrMsg (ErrExternal m)) 400
      | None \<Rightarrow>
          (case Find (fst (NewAskers e s)) (FormValue r ''ask'') of
             None \<Rightarrow> HttpError (Msg ''Not found'') 404
           | Some ap \<Rightarrow>
               (case fst (Answer e ap (FormValue r ''answer'') (snd (NewAskers e s))) of
                  Some err \<Rightarrow> HttpError (ErrMsg err) 500
                | None \<Rightarrow> Redirect ''/'' 303)))"
  by (simp add: ServePass_def Error_def StatusBadRequest_def StatusNotFound_def
      StatusInternalServerError_def StatusSeeOther_def split: option.splits prod.splits)

lemma ServePass_calls:
  "calls (snd (ServePass e r s)) =
     (case ParseForm r of
        Some m \<Rightarrow> calls s
      | None \<Rightarrow>
          (case Find (fst (NewAskers e s)) (FormValue r ''ask'') of
             None \<Rightarrow> calls (snd (NewAskers e s))
           | Some ap \<Rightarrow> calls (snd (Answer e ap (FormValue r ''answer'') (snd (NewAskers e s))))))"
  by (simp add: ServePass_def Error_def Println_def split: option.splits prod.splits)

text \<open>
  C3. When the dial to the descriptor's socket succeeds, \<open>Answer s\<close> makes exactly
  these calls: the dial, the deadline ten seconds after the clock's reading, one write
  and the close. The one datagram written is the byte \<open>+\<close> followed by the bytes of
  \<open>s\<close> and nothing else: it is one byte longer than \<open>s\<close>.
\<close>

theorem Answer_datagram:
  "net_Dial e ''unixgram'' (Socket a) = Inr sock \<longrightarrow>
     calls (snd (Answer e a s st)) =
       calls st @ [EvDial ''unixgram'' (Socket a),
                   EvSetDeadline sock (clock e (ticks st) + WriteTimeout),
                   EvWrite sock (CHR ''+'' # s), EvClose sock] \<and>
     writes (calls (snd (Answer e a s st))) = writes (calls st) @ [CHR ''+'' # s] \<and>
     length (CHR ''+'' # s) = 1 + length s"
  by (simp add: Answer_calls writes_append)

theorem Answer_datagram_witness:
  "net_Dial env0 ''unixgram'' (Socket ap0) = Inr 7 \<and>
   calls (snd (Answer env0 ap0 ''hunter2'' s0)) =
     [EvDial ''unixgram'' ''/tmp/test.sock'', EvSetDeadline 7 10000001000,
      EvWrite 7 ''+hunter2'', EvClose 7] \<and>
   writes (calls (snd (Answer env0 ap0 ''hunter2'' s0))) = [''+hunter2''] \<and>
   fst (ServePass env0 r_ok s0) = Redirect ''/'' 303 \<and>
   writes (calls (snd (ServePass env0 r_ok s0))) = [''+hunter2'']"
proof -
  have d: "net_Dial env0 ''unixgram'' (Socket ap0) = Inr 7" by (simp add: env0_def ap0_def)
  have f: "Find (fst (NewAskers env0 s0)) (FormValue r_ok ''ask'') = Some ap0"
    "FormValue r_ok ''answer'' = ''hunter2''" "ParseForm r_ok = None"
    by (simp_all add: NewAskers_env0 Find_def FormValue_def r_ok_def)
  have r: "fst (ServePass env0 r_ok s0) = Redirect ''/'' 303"
    using f d by (simp add: ServePass_result Answer_result env0_def)
  have w: "writes (calls (snd (ServePass env0 r_ok s0))) = [''+hunter2'']"
    using f d Answer_datagram[of env0 ap0 7 "''hunter2''" "snd (NewAskers env0 s0)"]
    by (simp add: ServePass_calls NewAskers_env0)
  from Answer_datagram[of env0 ap0 7 "''hunter2''" s0] d r w
  show ?thesis by (simp add: env0_def ap0_def s0_def WriteTimeout_def Second_def)
qed

text \<open>
  C10. The empty answer is relayed like any other. When the dial succeeds and the write
  reports no error, \<open>Answer\<close> of the empty string writes the lone byte \<open>+\<close> and
  returns no error; and a request whose form parses, whose \<open>ask\<close> is in the registry
  and whose \<open>answer\<close> is absent or empty gets the redirect 303 to \<open>/\<close>, after that
  one datagram \<open>+\<close> was written.
\<close>

theorem Answer_empty:
  "(net_Dial e ''unixgram'' (Socket a) = Inr sock \<and>
    conn_Write e sock [CHR ''+''] = (n, None) \<and> 0 \<le> n \<longrightarrow>
      fst (Answer e a [] st) = None \<and>
      writes (calls (snd (Answer e a [] st))) = writes (calls st) @ [[CHR ''+'']]) \<and>
   (ParseForm r = None \<and> Find (fst (NewAskers e s)) (FormValue r ''ask'') = Some a \<and>
    (Form r ''answer'' = [] \<or> (\<exists>vs. Form r ''answer'' = [] # vs)) \<and>
    net_Dial e ''unixgram'' (Socket a) = Inr sock \<and>
    conn_Write e sock [CHR ''+''] = (n, None) \<and> 0 \<le> n \<longrightarrow>
      fst (ServePass e r s) = Redirect ''/'' 303 \<and>
      writes (calls (snd (ServePass e r s))) = writes (calls s) @ [[CHR ''+'']])"
proof (intro conjI impI)
  assume "net_Dial e ''unixgram'' (Socket a) = Inr sock \<and>
    conn_Write e sock [CHR ''+''] = (n, None) \<and> 0 \<le> n"
  then show "fst (Answer e a [] st) = None"
    and "writes (calls (snd (Answer e a [] st))) = writes (calls st) @ [[CHR ''+'']]"
    by (simp_all add: Answer_result Answer_calls writes_append)
next
  assume h: "ParseForm r = None \<and> Find (fst (NewAskers e s)) (FormValue r ''ask'') = Some a \<and>
    (Form r ''answer'' = [] \<or> (\<exists>vs. Form r ''answer'' = [] # vs)) \<and>
    net_Dial e ''unixgram'' (Socket a) = Inr sock \<and>
    conn_Write e sock [CHR ''+''] = (n, None) \<and> 0 \<le> n"
  then have v: "FormValue r ''answer'' = []" by (auto simp: FormValue_def)
  show "fst (ServePass e r s) = Redirect ''/'' 303"
    using h v by (simp add: ServePass_result Answer_result)
  show "writes (calls (snd (ServePass e r s))) = writes (calls s) @ [[CHR ''+'']]"
    using h v by (simp add: ServePass_calls Answer_calls writes_append NewAskers_writes call_def)
qed

theorem Answer_empty_witness:
  "ParseForm r_empty = None \<and>
   Find (fst (NewAskers env0 s0)) (FormValue r_empty ''ask'') = Some ap0 \<and>
   Form r_empty ''answer'' = [] \<and>
   net_Dial env0 ''unixgram'' (Socket ap0) = Inr 7 \<and>
   conn_Write env0 7 [CHR ''+''] = (1, None) \<and>
   fst (Answer env0 ap0 [] s0) = None \<and>
   writes (calls (snd (Answer env0 ap0 [] s0))) = [[CHR ''+'']] \<and>
   fst (ServePass env0 r_empty s0) = Redirect ''/'' 303 \<and>
   writes (calls (snd (ServePass env0 r_empty s0))) = [[CHR ''+'']]"
proof -
  have p: "ParseForm r_empty = None" "Form r_empty ''answer'' = []"
    by (simp_all add: r_empty_def)
  have f: "Find (fst (NewAskers env0 s0)) (FormValue r_empty ''ask'') = Some ap0"
    by (simp add: NewAskers_env0 Find_def FormValue_def r_empty_def)
  have d: "net_Dial env0 ''unixgram'' (Socket ap0) = Inr 7" by (simp add: env0_def ap0_def)
  have w: "conn_Write env0 7 [CHR ''+''] = (1, None)" by (simp add: env0_def)
  have z: "writes (calls s0) = []" by (simp add: s0_def)
  note t = Answer_empty[of env0 ap0 7 1 s0 r_empty s0]
  have c1: "fst (Answer env0 ap0 [] s0) = None \<and>
      writes (calls (snd (Answer env0 ap0 [] s0))) = writes (calls s0) @ [[CHR ''+'']]"
    using t d w by simp
  have c2: "fst (ServePass env0 r_empty s0) = Redirect ''/'' 303 \<and>
      writes (calls (snd (ServePass env0 r_empty s0))) = writes (calls s0) @ [[CHR ''+'']]"
    using t p f d w by simp
  show ?thesis using p f d w c1 c2 z by simp
qed

lemma NewAskers_env_timeout: "NewAskers env_timeout s0 = NewAskers env0 s0"
  by (simp add: env_timeout_def env0_simps model_defs)

text \<open>
  C6. The responses of \<open>ServePass\<close>: 400 with the parser's error when the form does
  not parse; otherwise 404 \<open>Not found\<close> when the name \<open>ask\<close> is not in the registry
  just enumerated; otherwise 500 with the error of \<open>Answer\<close> when delivering
  \<open>answer\<close> fails; otherwise the redirect 303 to \<open>/\<close>.
\<close>

theorem ServePass_responses:
  "(ParseForm r = Some m \<longrightarrow>
      fst (ServePass e r s) = HttpError (ErrMsg (ErrExternal m)) 400) \<and>
   (ParseForm r = None \<and> Find (fst (NewAskers e s)) (FormValue r ''ask'') = None \<longrightarrow>
      fst (ServePass e r s) = HttpError (Msg ''Not found'') 404) \<and>
   (ParseForm r = None \<and> Find (fst (NewAskers e s)) (FormValue r ''ask'') = Some ap \<and>
    fst (Answer e ap (FormValue r ''answer'') (snd (NewAskers e s))) = Some err \<longrightarrow>
      fst (ServePass e r s) = HttpError (ErrMsg err) 500) \<and>
   (ParseForm r = None \<and> Find (fst (NewAskers e s)) (FormValue r ''ask'') = Some ap \<and>
    fst (Answer e ap (FormValue r ''answer'') (snd (NewAskers e s))) = None \<longrightarrow>
      fst (ServePass e r s) = Redirect ''/'' 303)"
  by (simp add: ServePass_result)

theorem ServePass_responses_witness:
  "ParseForm r_bad = Some ''invalid semicolon separator in query'' \<and>
   fst (ServePass env0 r_bad s0) =
     HttpError (ErrMsg (ErrExternal ''invalid semicolon separator in query'')) 400 \<and>
   ParseForm r_traversal = None \<and>
   Find (fst (NewAskers env0 s0)) (FormValue r_traversal ''ask'') = None \<and>
   fst (ServePass env0 r_traversal s0) = HttpError (Msg ''Not found'') 404 \<and>
   ParseForm r_ok = None \<and>
   Find (fst (NewAskers env_timeout s0)) (FormValue r_ok ''ask'') = Some ap0 \<and>
   fst (Answer env_timeout ap0 (FormValue r_ok ''answer'') (snd (NewAskers env_timeout s0))) =
     Some (ErrExternal ''i/o timeout'') \<and>
   fst (ServePass env_timeout r_ok s0) = HttpError (ErrMsg (ErrExternal ''i/o timeout'')) 500 \<and>
   Find (fst (NewAskers env0 s0)) (FormValue r_ok ''ask'') = Some ap0 \<and>
   fst (Answer env0 ap0 (FormValue r_ok ''answer'') (snd (NewAskers env0 s0))) = None \<and>
   fst (ServePass env0 r_ok s0) = Redirect ''/'' 303"
proof -
  have b: "ParseForm r_bad = Some ''invalid semicolon separator in query''"
    by (simp add: r_bad_def)
  have p: "ParseForm r_traversal = None" "ParseForm r_ok = None"
    by (simp_all add: r_traversal_def r_ok_def)
  have f1: "Find (fst (NewAskers env0 s0)) (FormValue r_traversal ''ask'') = None"
    by (simp add: NewAskers_env0 Find_def FormValue_def r_traversal_def)
  have f2: "Find (fst (NewAskers env0 s0)) (FormValue r_ok ''ask'') = Some ap0"
    by (simp add: NewAskers_env0 Find_def FormValue_def r_ok_def)
  have f3: "Find (fst (NewAskers env_timeout s0)) (FormValue r_ok ''ask'') = Some ap0"
    using f2 by (simp add: NewAskers_env_timeout)
  have a1: "fst (Answer env_timeout ap0 (FormValue r_ok ''answer'')
        (snd (NewAskers env_timeout s0))) = Some (ErrExternal ''i/o timeout'')"
    by (simp add: Answer_result env_timeout_def env0_def ap0_def)
  have a2: "fst (Answer env0 ap0 (FormValue r_ok ''answer'') (snd (NewAskers env0 s0))) = None"
    by (simp add: Answer_result env0_def ap0_def FormValue_def r_ok_def)
  note t1 = ServePass_responses[of r_bad "''invalid semicolon separator in query''" env0 s0
      ap0 ErrShortWrite]
  note t2 = ServePass_responses[of r_traversal "''x''" env0 s0 ap0 ErrShortWrite]
  note t3 = ServePass_responses[of r_ok "''x''" env_timeout s0 ap0 "ErrExternal ''i/o timeout''"]
  note t4 = ServePass_responses[of r_ok "''x''" env0 s0 ap0 ErrShortWrite]
  have c1: "fst (ServePass env0 r_bad s0) =
     HttpError (ErrMsg (ErrExternal ''invalid semicolon separator in query'')) 400"
    using t1 b by blast
  have c2: "fst (ServePass env0 r_traversal s0) = HttpError (Msg ''Not found'') 404"
    using t2 p f1 by blast
  have c3: "fst (ServePass env_timeout r_ok s0) =
     HttpError (ErrMsg (ErrExternal ''i/o timeout'')) 500"
    using t3 p f3 a1 by blast
  have c4: "fst (ServePass env0 r_ok s0) = Redirect ''/'' 303"
    using t4 p f2 a2 by blast
  show ?thesis using b p f1 f2 f3 a1 a2 c1 c2 c3 c4 by blast
qed



section \<open>Listener resolver: the cases\<close>

lemma Atoi_3: "Atoi ''3'' = Inr 3"
  by (simp add: Atoi_def digit_val_def)

lemma Atoi_minus_1: "Atoi ''-1'' = Inr (- 1)"
  by (simp add: Atoi_def digit_val_def)

lemma Listener_bind:
  "CutPrefix (listen e) ''fd:'' = None \<Longrightarrow>
     Listener e addr s =
       (Return (wrap_error (net_Listen e ''tcp'' addr)), call (EvListen ''tcp'' addr) s)"
  by (simp add: Listener_def)

lemma Listener_invalid:
  "CutPrefix (listen e) ''fd:'' = Some fdstr \<Longrightarrow> Atoi fdstr = Inl err \<Longrightarrow>
     Listener e addr s = (Return (Inl err), s)"
  by (simp add: Listener_def)

lemma Listener_adopt:
  "CutPrefix (listen e) ''fd:'' = Some fdstr \<Longrightarrow> Atoi fdstr = Inr fd \<Longrightarrow>
   NewFile (word_of_int fd) (listen e) = Some file \<Longrightarrow>
     Listener e addr s =
       (Return (wrap_error (net_FileListener e file)),
        call (EvFileClose (Some file)) (call (EvFileListener (Some file)) s))"
  by (simp add: Listener_def FileListener_def Let_def)

lemma Listener_nil_file:
  "CutPrefix (listen e) ''fd:'' = Some fdstr \<Longrightarrow> Atoi fdstr = Inr fd \<Longrightarrow>
   NewFile (word_of_int fd) (listen e) = None \<Longrightarrow>
     Listener e addr s = (Panic, call (EvFileClose None) (call (EvFileListener None) s))"
  by (simp add: Listener_def FileListener_def Let_def)

lemma Listener_fd_3:
  "Listener env_fd (listen env_fd) s0 =
     (Return (Inr 2),
      s0\<lparr>calls := [EvFileListener (Some \<lparr>Fd = 3, FileName = ''fd:3''\<rparr>),
                     EvFileClose (Some \<lparr>Fd = 3, FileName = ''fd:3''\<rparr>)]\<rparr>)"
proof -
  have b: "CutPrefix (listen env_fd) ''fd:'' = Some ''3''"
    by (simp add: env_fd_def env0_def CutPrefix_def HasPrefix_def)
  have f: "NewFile (word_of_int 3) (listen env_fd) = Some \<lparr>Fd = 3, FileName = ''fd:3''\<rparr>"
    by (simp add: NewFile_def env_fd_def env0_def)
  show ?thesis
    using Listener_adopt[OF b Atoi_3 f, of "listen env_fd" s0]
    by (simp add: env0_def env_fd_def wrap_error_def call_def s0_def)
qed

lemma Listener_default:
  "Listener env0 (listen env0) s0 =
     (Return (Inr 1), s0\<lparr>calls := [EvListen ''tcp'' ''[::]:8080'']\<rparr>)"
proof -
  have a: "CutPrefix (listen env0) ''fd:'' = None"
    by (simp add: env0_def CutPrefix_def HasPrefix_def)
  show ?thesis
    using Listener_bind[OF a, of "listen env0" s0]
    by (simp add: env0_def wrap_error_def call_def s0_def)
qed

lemma digit_val_range: "digit_val c = Some v \<Longrightarrow> 0 \<le> v \<and> v \<le> 9"
  by (auto simp: digit_val_def Let_def split: if_splits)

lemma scan_digits_nonneg: "scan_digits acc ds = ScanOk un \<Longrightarrow> 0 \<le> acc \<Longrightarrow> 0 \<le> un"
proof (induction ds arbitrary: acc)
  case Nil
  then show ?case by simp
next
  case (Cons c ds)
  then obtain v where v: "digit_val c = Some v" by (auto split: option.splits)
  then have "0 \<le> acc * 10 + v" using digit_val_range[OF v] Cons.prems(2) by simp
  moreover have "scan_digits (acc * 10 + v) ds = ScanOk un"
    using Cons.prems(1) v by (simp split: if_splits)
  ultimately show ?case using Cons.IH by blast
qed

lemma Atoi_range: "Atoi s = Inr fd \<Longrightarrow> - (2 ^ 63) \<le> fd \<and> fd < 2 ^ 63"
proof -
  assume a: "Atoi s = Inr fd"
  then obtain c cs where s: "s = c # cs" by (cases s) (auto simp: Atoi_def)
  let ?ds = "if c = CHR ''-'' \<or> c = CHR ''+'' then cs else s"
  from a s obtain un where un: "scan_digits 0 ?ds = ScanOk un"
    by (auto simp: Atoi_def Let_def split: if_splits scan_result.splits)
  have "0 \<le> un" using scan_digits_nonneg[OF un] by simp
  then show ?thesis using a s un
    by (auto simp: Atoi_def Let_def split: if_splits)
qed

lemma NewFile_of_Atoi:
  assumes "Atoi s = Inr fd"
  shows "NewFile (word_of_int fd) name =
     (if fd < 0 then None else Some \<lparr>Fd = word_of_int fd, FileName = name\<rparr>)"
proof -
  have "sint (word_of_int fd :: 64 word) = fd"
    using Atoi_range[OF assms] by (simp add: sint_sbintrunc' signed_take_bit_int_eq_self)
  then show ?thesis by (simp add: NewFile_def)
qed

lemma Listener_main:
  "Listener e (listen e) s =
     (case CutPrefix (listen e) ''fd:'' of
        None \<Rightarrow>
          (Return (wrap_error (net_Listen e ''tcp'' (listen e))),
           call (EvListen ''tcp'' (listen e)) s)
      | Some fdstr \<Rightarrow>
          (case Atoi fdstr of
             Inl err \<Rightarrow> (Return (Inl err), s)
           | Inr fd \<Rightarrow>
               if fd < 0 then (Panic, call (EvFileClose None) (call (EvFileListener None) s))
               else (Return (wrap_error
                       (net_FileListener e \<lparr>Fd = word_of_int fd, FileName = listen e\<rparr>)),
                     call (EvFileClose (Some \<lparr>Fd = word_of_int fd, FileName = listen e\<rparr>))
                       (call (EvFileListener (Some \<lparr>Fd = word_of_int fd, FileName = listen e\<rparr>))
                          s))))"
  by (auto simp: Listener_def FileListener_def Let_def NewFile_of_Atoi
      split: option.splits sum.splits)

text \<open>
  C8. With \<open>-listen fd:-1\<close>, the argument \<open>main\<close> passes has the form \<open>fd:<n>\<close> and
  \<open>-1\<close> parses as an integer. \<open>os.NewFile\<close> returns nil for it, the nil is handed to
  \<open>net.FileListener\<close> unchecked, and \<open>Listener\<close> panics: it neither adopts a
  descriptor nor returns an error. (\<open>Listener_main\<close> gives every case of the call
  in \<open>main\<close>: a bind when the flag has no prefix \<open>fd:\<close>, the error of \<open>Atoi\<close>, an
  adoption for a number that is not negative, and this panic.)
\<close>

theorem Listener_negative_descriptor:
  "listen env_neg = ''fd:-1'' \<and>
   CutPrefix (listen env_neg) ''fd:'' = Some ''-1'' \<and>
   Atoi ''-1'' = Inr (- 1) \<and>
   NewFile (word_of_int (- 1)) (listen env_neg) = None \<and>
   Listener env_neg (listen env_neg) s0 =
     (Panic, s0\<lparr>calls := [EvFileListener None, EvFileClose None]\<rparr>)"
proof -
  have l: "listen env_neg = ''fd:-1''" by (simp add: env_neg_def)
  have c: "CutPrefix (listen env_neg) ''fd:'' = Some ''-1''"
    by (simp add: l CutPrefix_def HasPrefix_def)
  have f: "NewFile (word_of_int (- 1)) (listen env_neg) = None"
    by (simp add: NewFile_def)
  show ?thesis
    using l c f Atoi_minus_1 Listener_nil_file[OF c Atoi_minus_1 f, of "listen env_neg" s0]
    by (simp add: call_def s0_def)
qed

section \<open>Idle supervisor: the disabled case\<close>

lemma Reset_keeps:
  "timers st = [] \<Longrightarrow> Reset t d st = st"
  by (simp add: Reset_def)

lemma ServeHTTP_no_timers:
  "timers st = [] \<Longrightarrow>
     timers (ServeHTTP h st) = [] \<and> shutdown_calls (ServeHTTP h st) = shutdown_calls st \<and>
     done_closed (ServeHTTP h st) = done_closed st"
  by (induction h arbitrary: st) (simp_all add: Reset_keeps)

lemma expire_no_timers: "timers st = [] \<Longrightarrow> expire t st = st"
  by (simp add: expire_def)

lemma idle_run_no_timers:
  "timers st = [] \<Longrightarrow>
     timers (idle_run h evs st) = [] \<and> shutdown_calls (idle_run h evs st) = shutdown_calls st \<and>
     done_closed (idle_run h evs st) = done_closed st"
proof (induction evs arbitrary: st)
  case Nil
  then show ?case by simp
next
  case (Cons ev evs)
  show ?case
  proof (cases ev)
    case Request_arrives
    have "timers (ServeHTTP h st) = []" using ServeHTTP_no_timers[OF Cons.prems] by simp
    from Cons.IH[OF this] show ?thesis
      using Request_arrives ServeHTTP_no_timers[OF Cons.prems, of h] by simp
  next
    case (Timer_expires t)
    then show ?thesis using Cons.IH[OF Cons.prems] expire_no_timers[OF Cons.prems] by simp
  qed
qed

lemma NewIdleHandler_positive:
  "0 < d \<Longrightarrow>
     NewIdleHandler d sf h idle_init =
       ((IdleHandlerFunc 0 d h, Some 0),
        \<lparr>timers = [\<lparr>armed = True, period = d, shutdownFunc = sf, cancels = 0\<rparr>],
         done_closed = [False], shutdown_calls = [], served = []\<rparr>)"
  by (simp add: NewIdleHandler_def idle_init_def)

lemma idle_expire_example:
  "shutdown_calls (idle_run (IdleHandlerFunc 0 5 (Plain ''mux''))
       [Request_arrives, Timer_expires 0]
       (snd (NewIdleHandler 5 ''Shutdown'' (Plain ''mux'') idle_init))) =
     [(''Shutdown'', gracePeriod)]"
  by (simp add: NewIdleHandler_def idle_init_def Reset_def expire_def)

text \<open>
  C9. With an idle duration of zero, \<open>NewIdleHandler\<close> returns the handler it was
  given and no \<open>done\<close> channel, and changes nothing: no timer, no context. Started
  from the state of \<open>main\<close>, whatever requests arrive and whatever timer is said to
  expire, there is never a timer, \<open>shutdownFunc\<close> is never called and no \<open>Done\<close>
  channel exists to be closed.
\<close>

theorem NewIdleHandler_zero:
  "NewIdleHandler 0 sf h st = ((h, None), st) \<and>
   timers (idle_run (fst (fst (NewIdleHandler 0 sf h idle_init))) evs
             (snd (NewIdleHandler 0 sf h idle_init))) = [] \<and>
   shutdown_calls (idle_run (fst (fst (NewIdleHandler 0 sf h idle_init))) evs
             (snd (NewIdleHandler 0 sf h idle_init))) = [] \<and>
   done_closed (idle_run (fst (fst (NewIdleHandler 0 sf h idle_init))) evs
             (snd (NewIdleHandler 0 sf h idle_init))) = []"
proof -
  have z: "NewIdleHandler 0 sf h st' = ((h, None), st')" for st'
    by (simp add: NewIdleHandler_def)
  have "timers idle_init = []" by (simp add: idle_init_def)
  from idle_run_no_timers[OF this, of h evs] show ?thesis
    by (simp add: z idle_init_def)
qed

end
